theory Spec2Isabelle
  imports Complex_Main
begin

section \<open>The notebook \<^verbatim>\<open>examples/hyperparameter-optimisation.ipynb\<close>\<close>

text \<open>
  The notebook tunes five hyper-parameters of a gradient boosting regressor. Its own code
  is an objective function, a list of bounds, three calls of minimizers and three running
  minima for the convergence plot. Python floats are modelled as reals; a float that is
  not a number is written out where numpy produces one (\<open>None\<close> in \<open>np_mean\<close>).
\<close>

subsection \<open>Values and exceptions\<close>

datatype pyval = PInt int | PFloat real | PStr string

datatype py_error = ValueError

subsection \<open>The estimator and the objective\<close>

text \<open>
  An estimator is the dictionary of its parameters, as \<^verbatim>\<open>get_params\<close> /
  \<^verbatim>\<open>set_params\<close> see it. A parameter that the notebook never gives keeps the
  default of the external estimator class and is absent from the dictionary.
\<close>

type_synonym estimator = "string \<rightharpoonup> pyval"

text \<open>\<^verbatim>\<open>reg = GradientBoostingRegressor(n_estimators=50, random_state=0)\<close>\<close>

definition reg :: estimator where
  "reg = [''n_estimators'' \<mapsto> PInt 50, ''random_state'' \<mapsto> PInt 0]"

text \<open>\<^verbatim>\<open>reg.set_params(**kwargs)\<close>: every keyword overwrites the parameter of its name.\<close>

fun set_params :: "estimator \<Rightarrow> (string \<times> pyval) list \<Rightarrow> estimator" where
  "set_params est [] = est"
| "set_params est ((k, v) # kws) = set_params (est(k \<mapsto> v)) kws"

text \<open>
  \<^verbatim>\<open>np.mean\<close> of a one-dimensional array: the sum over the number of entries. Of an
  empty array numpy returns nan (with a warning), which is \<open>None\<close> here.
\<close>

definition np_mean :: "real list \<Rightarrow> real option" where
  "np_mean xs = (if xs = [] then None else Some (sum_list xs / real (length xs)))"

text \<open>Unary minus of a float; the negation of nan is nan.\<close>

definition neg :: "real option \<Rightarrow> real option" where
  "neg v = map_option uminus v"

text \<open>
  \<^verbatim>\<open>
  def objective(params):
      max_depth, learning_rate, max_features, min_samples_split, min_samples_leaf = params
      reg.set_params(max_depth=max_depth, learning_rate=learning_rate,
                     max_features=max_features, min_samples_split=min_samples_split,
                     min_samples_leaf=min_samples_leaf)
      return -np.mean(cross_val_score(reg, X, y, cv=5, n_jobs=-1,
                                      scoring="mean_absolute_error"))
  \<close>
  \<^verbatim>\<open>cross_val_score\<close> and the data \<^verbatim>\<open>X\<close>, \<^verbatim>\<open>y\<close> belong to an external
  package: they are parameters. The global \<^verbatim>\<open>reg\<close> is mutated, so the estimator is
  passed in and returned. Unpacking a sequence that has not exactly five entries raises
  \<^verbatim>\<open>ValueError\<close> before anything is changed.
\<close>

definition objective ::
  "(estimator \<Rightarrow> 'x \<Rightarrow> 'y \<Rightarrow> int \<Rightarrow> int \<Rightarrow> string \<Rightarrow> real list) \<Rightarrow> 'x \<Rightarrow> 'y \<Rightarrow>
   estimator \<Rightarrow> pyval list \<Rightarrow> (py_error + real option) \<times> estimator" where
  "objective cross_val_score X y est params =
     (case params of
        [max_depth, learning_rate, max_features, min_samples_split, min_samples_leaf] \<Rightarrow>
          (let est' = set_params est
                 [(''max_depth'', max_depth),
                  (''learning_rate'', learning_rate),
                  (''max_features'', max_features),
                  (''min_samples_split'', min_samples_split),
                  (''min_samples_leaf'', min_samples_leaf)]
           in (Inr (neg (np_mean
                 (cross_val_score est' X y 5 (- 1) ''mean_absolute_error''))), est'))
      | _ \<Rightarrow> (Inl ValueError, est))"

subsection \<open>The bounds of the search space\<close>

text \<open>
  \<^verbatim>\<open>
  space  = [(1, 5),                           # max_depth
            (10**-5, 10**-1, "log-uniform"),  # learning_rate
            (1, X.shape[1]),                  # max_features
            (2, 30),                          # min_samples_split
            (1, 30)]                          # min_samples_leaf
  \<close>
  A tuple is the list of its entries. \<^verbatim>\<open>10**-5\<close> and \<^verbatim>\<open>10**-1\<close> are floats in
  Python 3. \<^verbatim>\<open>X.shape[1]\<close>, the number of columns of the external data set, is
  the parameter \<open>X_shape1\<close>.
\<close>

definition space :: "int \<Rightarrow> pyval list list" where
  "space X_shape1 =
     [[PInt 1, PInt 5],
      [PFloat (1 / 10 ^ 5), PFloat (1 / 10 ^ 1), PStr ''log-uniform''],
      [PInt 1, PInt X_shape1],
      [PInt 2, PInt 30],
      [PInt 1, PInt 30]]"

text \<open>The trailing comments of the five lines of \<^verbatim>\<open>space\<close>, in the order of the lines.\<close>

definition space_comments :: "string list" where
  "space_comments =
     [''max_depth'', ''learning_rate'', ''max_features'', ''min_samples_split'',
      ''min_samples_leaf'']"

subsection \<open>The three calls\<close>

text \<open>
  \<^verbatim>\<open>
  res_gp = gp_minimize(objective, space, maxiter=50, random_state=0)
  res_forest = forest_minimize(objective, space, maxiter=50, random_state=0)
  res_dummy = dummy_minimize(objective, space, maxiter=50, random_state=0)
  \<close>
  Each call passes two positional arguments (the objective and the bounds) and a
  dictionary of keyword arguments; a call is recorded with its callee and that dictionary,
  kept in the order written.
\<close>

record call =
  callee :: string
  kwargs :: "(string \<times> pyval) list"

definition gp_minimize_call :: call where
  "gp_minimize_call =
     \<lparr>callee = ''gp_minimize'', kwargs = [(''maxiter'', PInt 50), (''random_state'', PInt 0)]\<rparr>"

definition forest_minimize_call :: call where
  "forest_minimize_call =
     \<lparr>callee = ''forest_minimize'',
      kwargs = [(''maxiter'', PInt 50), (''random_state'', PInt 0)]\<rparr>"

definition dummy_minimize_call :: call where
  "dummy_minimize_call =
     \<lparr>callee = ''dummy_minimize'',
      kwargs = [(''maxiter'', PInt 50), (''random_state'', PInt 0)]\<rparr>"

definition optimizer_calls :: "call list" where
  "optimizer_calls = [gp_minimize_call, forest_minimize_call, dummy_minimize_call]"

text \<open>The value a call binds to a keyword, \<open>None\<close> when the call does not pass it.\<close>

definition keyword :: "call \<Rightarrow> string \<Rightarrow> pyval option" where
  "keyword c k = map_of (kwargs c) k"

subsection \<open>The convergence curves\<close>

text \<open>
  \<^verbatim>\<open>
  n_points = 50
  best_gp = [-np.min(res_gp.func_vals[:i+1]) for i in range(n_points)]
  \<close>
  and the same for \<^verbatim>\<open>res_forest\<close> and \<^verbatim>\<open>res_dummy\<close>. \<^verbatim>\<open>np.min\<close> raises
  \<^verbatim>\<open>ValueError\<close> on an empty array; a slice \<^verbatim>\<open>a[:k]\<close> never raises and is the
  first \<open>k\<close> entries, or all of them when there are fewer.
\<close>

definition n_points :: nat where
  "n_points = 50"

fun np_min :: "real list \<Rightarrow> py_error + real" where
  "np_min [] = Inl ValueError"
| "np_min (v # vs) = Inr (fold min vs v)"

text \<open>The list comprehension over a list of indices: the first exception ends it.\<close>

fun running_best :: "real list \<Rightarrow> nat list \<Rightarrow> py_error + real list" where
  "running_best vals [] = Inr []"
| "running_best vals (i # rest) =
     (case np_min (take (i + 1) vals) of
        Inl e \<Rightarrow> Inl e
      | Inr m \<Rightarrow>
          (case running_best vals rest of
             Inl e \<Rightarrow> Inl e
           | Inr bs \<Rightarrow> Inr (- m # bs)))"

definition best_curve :: "real list \<Rightarrow> py_error + real list" where
  "best_curve vals = running_best vals [0..<n_points]"

subsection \<open>The quantity the objective is meant to return\<close>

text \<open>
  The mean of the five cross-validation scores of the regressor whose five
  hyper-parameters are the entries of the point, in the order of the point, and whose
  other parameters are those of \<open>est\<close>. It is written from the description of the
  objective, to be compared with \<open>objective\<close>, which is written from the code.
\<close>

definition mean_cv_score ::
  "(estimator \<Rightarrow> 'x \<Rightarrow> 'y \<Rightarrow> int \<Rightarrow> int \<Rightarrow> string \<Rightarrow> real list) \<Rightarrow> 'x \<Rightarrow> 'y \<Rightarrow>
   estimator \<Rightarrow> pyval list \<Rightarrow> real" where
  "mean_cv_score cross_val_score X y est p =
     (let scores = cross_val_score
            (est(''max_depth'' \<mapsto> p ! 0, ''learning_rate'' \<mapsto> p ! 1,
                 ''max_features'' \<mapsto> p ! 2, ''min_samples_split'' \<mapsto> p ! 3,
                 ''min_samples_leaf'' \<mapsto> p ! 4))
            X y 5 (- 1) ''mean_absolute_error''
      in sum_list scores / real (length scores))"

section \<open>The search space of the library\<close>

text \<open>
  The notebook hands its bounds to the minimizers of the package it imports. What the
  package makes of them is its \<open>Dimension\<close> type, which is declared outside the notebook.
\<close>

text \<open>
  Modelled from the spec: the type \<open>Dimension\<close> of the package (its declaration is not in
  the notebook). One of Continuous(low, high, log-scale), Integer(low, high),
  Categorical(set of labels).
\<close>

datatype dimension =
  Continuous real real bool
| Integer int int
| Categorical "string list"

datatype lib_error = InvalidSpaceError | InvalidConfigurationError

text \<open>
  Modelled from the spec: the invariant of a \<open>Dimension\<close>: \<open>low < high\<close> for the numeric
  kinds; a categorical set is not empty and holds no label twice.
\<close>

fun dimension_ok :: "dimension \<Rightarrow> bool" where
  "dimension_ok (Continuous low high log_scale) = (low < high)"
| "dimension_ok (Integer low high) = (low < high)"
| "dimension_ok (Categorical labels) = (labels \<noteq> [] \<and> distinct labels)"

text \<open>The bounds of a numeric dimension; a categorical dimension has none.\<close>

fun numeric_bounds :: "dimension \<Rightarrow> (real \<times> real) option" where
  "numeric_bounds (Continuous low high log_scale) = Some (low, high)"
| "numeric_bounds (Integer low high) = Some (real_of_int low, real_of_int high)"
| "numeric_bounds (Categorical labels) = None"

fun labels_of :: "pyval list \<Rightarrow> string list option" where
  "labels_of [] = Some []"
| "labels_of (PStr s # rest) = map_option ((#) s) (labels_of rest)"
| "labels_of (v # rest) = None"

text \<open>
  Modelled from the spec: how caller-supplied bounds become a \<open>Dimension\<close> (the
  constructor is not in the notebook). Two integers are an integer range, two floats a
  continuous range, with the prior \<^verbatim>\<open>"log-uniform"\<close> a log-scaled one, and a tuple of
  strings a set of labels, de-duplicated. Anything else is malformed.
\<close>

fun dimension_of :: "pyval list \<Rightarrow> dimension option" where
  "dimension_of [PInt low, PInt high] = Some (Integer low high)"
| "dimension_of [PFloat low, PFloat high] = Some (Continuous low high False)"
| "dimension_of [PFloat low, PFloat high, PStr prior] =
     (if prior = ''log-uniform'' then Some (Continuous low high True)
      else if prior = ''uniform'' then Some (Continuous low high False)
      else None)"
| "dimension_of t = map_option (\<lambda>ls. Categorical (remdups ls)) (labels_of t)"

fun dimensions_of :: "pyval list list \<Rightarrow> dimension list option" where
  "dimensions_of [] = Some []"
| "dimensions_of (t # ts) =
     (case dimension_of t of
        None \<Rightarrow> None
      | Some d \<Rightarrow> map_option ((#) d) (dimensions_of ts))"

text \<open>
  Modelled from the spec: the construction of a \<open>SearchSpace\<close>, an ordered sequence of
  \<open>Dimension\<close>. \<open>InvalidSpaceError\<close> is raised for a malformed \<open>Dimension\<close> (empty
  categorical set, inverted bounds) or an empty space.
\<close>

definition make_space :: "pyval list list \<Rightarrow> lib_error + dimension list" where
  "make_space bounds =
     (case dimensions_of bounds of
        None \<Rightarrow> Inl InvalidSpaceError
      | Some dims \<Rightarrow>
          if dims = [] \<or> \<not> list_all dimension_ok dims then Inl InvalidSpaceError
          else Inr dims)"

section \<open>Points and their encoding\<close>

text \<open>
  Modelled from the spec: a \<open>Point\<close> is an ordered sequence of values, one per
  \<open>Dimension\<close>, each value valid within its dimension's domain (the type is declared
  in the package, not in the notebook). The values are native-typed: an integer for an
  integer dimension, a float for a continuous one, a label for a categorical one.
\<close>

type_synonym point = "pyval list"

fun in_dimension :: "dimension \<Rightarrow> pyval \<Rightarrow> bool" where
  "in_dimension (Continuous low high log_scale) (PFloat v) = (low \<le> v \<and> v \<le> high)"
| "in_dimension (Integer low high) (PInt i) = (low \<le> i \<and> i \<le> high)"
| "in_dimension (Categorical labels) (PStr s) = (s \<in> set labels)"
| "in_dimension d v = False"

definition valid_point :: "dimension list \<Rightarrow> point \<Rightarrow> bool" where
  "valid_point sp p = list_all2 in_dimension sp p"

text \<open>
  Modelled from the spec: \<open>encode\<close> and \<open>decode\<close> of the Search Space component (they
  are not in the notebook). They map between the native mixed-type representation and a
  vector of real numbers. Categorical dimensions are one-hot or ordinal encoded; both
  decisions are modelled, chosen by \<open>cat_encoding\<close>. A continuous value is its own code,
  an integer is the real of the same value and is decoded by rounding to the nearest
  integer. An ordinal code is the position of the label in the dimension's labels; a
  one-hot code has one entry per label, 1 at the label and 0 elsewhere, and is decoded to
  the label of its first largest entry. \<open>None\<close> is a value or a vector that does not fit
  the space.
\<close>

datatype cat_encoding = OneHot | Ordinal

fun index_of :: "'a list \<Rightarrow> 'a \<Rightarrow> nat" where
  "index_of [] a = 0"
| "index_of (b # bs) a = (if a = b then 0 else Suc (index_of bs a))"

fun argmax :: "real list \<Rightarrow> nat" where
  "argmax [] = 0"
| "argmax (c # cs) = (if list_all (\<lambda>c'. c' \<le> c) cs then 0 else Suc (argmax cs))"

text \<open>The number of entries of the vector that a dimension takes.\<close>

fun width :: "cat_encoding \<Rightarrow> dimension \<Rightarrow> nat" where
  "width OneHot (Categorical labels) = length labels"
| "width enc d = 1"

fun encode_value :: "cat_encoding \<Rightarrow> dimension \<Rightarrow> pyval \<Rightarrow> real list option" where
  "encode_value enc (Continuous low high log_scale) (PFloat v) = Some [v]"
| "encode_value enc (Integer low high) (PInt i) = Some [real_of_int i]"
| "encode_value Ordinal (Categorical labels) (PStr s) =
     (if s \<in> set labels then Some [real (index_of labels s)] else None)"
| "encode_value OneHot (Categorical labels) (PStr s) =
     (if s \<in> set labels then Some (map (\<lambda>l. if l = s then 1 else 0) labels) else None)"
| "encode_value enc d v = None"

fun decode_value :: "cat_encoding \<Rightarrow> dimension \<Rightarrow> real list \<Rightarrow> pyval option" where
  "decode_value enc (Continuous low high log_scale) [r] = Some (PFloat r)"
| "decode_value enc (Integer low high) [r] = Some (PInt (round r))"
| "decode_value Ordinal (Categorical labels) [r] =
     (let k = round r
      in if 0 \<le> k \<and> nat k < length labels then Some (PStr (labels ! nat k)) else None)"
| "decode_value OneHot (Categorical labels) c =
     (if c \<noteq> [] \<and> length c = length labels then Some (PStr (labels ! argmax c)) else None)"
| "decode_value enc d c = None"

fun encode :: "cat_encoding \<Rightarrow> dimension list \<Rightarrow> point \<Rightarrow> real list option" where
  "encode enc [] [] = Some []"
| "encode enc (d # ds) (v # vs) =
     (case encode_value enc d v of
        None \<Rightarrow> None
      | Some c \<Rightarrow> map_option ((@) c) (encode enc ds vs))"
| "encode enc ds vs = None"

fun decode :: "cat_encoding \<Rightarrow> dimension list \<Rightarrow> real list \<Rightarrow> point option" where
  "decode enc [] c = (if c = [] then Some [] else None)"
| "decode enc (d # ds) c =
     (if length c < width enc d then None
      else
        (case decode_value enc d (take (width enc d) c) of
           None \<Rightarrow> None
         | Some v \<Rightarrow> map_option ((#) v) (decode enc ds (drop (width enc d) c))))"

text \<open>
  Two values agree up to the tolerance \<open>eps\<close>: continuous values differ by at most
  \<open>eps\<close>, discrete and categorical values are equal.
\<close>

fun close_to :: "real \<Rightarrow> pyval \<Rightarrow> pyval \<Rightarrow> bool" where
  "close_to eps (PFloat u) (PFloat v) = (\<bar>u - v\<bar> \<le> eps)"
| "close_to eps u v = (u = v)"

section \<open>The optimization loop of the library\<close>

text \<open>
  The minimizers that the notebook calls are functions of the package, outside the
  notebook. The loop below is the Driver of the spec; the surrogate model, the
  acquisition function, the random number generator and the sampling of one point are
  its parameters, since the spec fixes their interfaces and not their arithmetic.
\<close>

text \<open>
  Modelled from the spec: an \<open>Observation\<close> is a pair of a \<open>Point\<close> and an objective
  value; \<open>None\<close> is the sentinel of a failed evaluation.
\<close>

type_synonym observation = "point \<times> real option"

datatype surrogate_kind = ProbabilisticRegressor | Ensemble | RandomSearch

text \<open>
  Modelled from the spec: the configuration surface. The option \<^verbatim>\<open>space\<close> is the field
  \<open>cfg_space\<close>; \<open>random_state\<close> is \<open>None\<close> when the caller gives no seed.
\<close>

record config =
  n_calls :: int
  n_initial_points :: int
  random_state :: "nat option"
  surrogate_kind :: surrogate_kind
  acquisition_trade_off :: real
  cfg_space :: "pyval list list"

text \<open>
  Modelled from the spec: the interfaces of the components that the Driver uses. \<open>'r\<close>
  is the state of the random number generator, owned by the run and passed on by every
  draw, and \<open>'s\<close> the fitted state of the surrogate. \<open>draw\<close> samples one point of the
  space, \<open>retry_bound\<close> bounds the resampling of the initial design, \<open>surrogate_fit\<close>
  returns \<open>None\<close> for a \<open>SurrogateFitError\<close>, and \<open>acquisition_propose\<close> returns the
  point that maximizes the acquisition score.
\<close>

record ('r, 's) internals =
  seed_rng :: "nat \<Rightarrow> 'r"
  draw :: "dimension list \<Rightarrow> 'r \<Rightarrow> point \<times> 'r"
  retry_bound :: nat
  surrogate_fit :: "surrogate_kind \<Rightarrow> observation list \<Rightarrow> 'r \<Rightarrow> 's option \<times> 'r"
  acquisition_propose :: "real \<Rightarrow> dimension list \<Rightarrow> 's \<Rightarrow> 'r \<Rightarrow> point \<times> 'r"

text \<open>
  Modelled from the spec: the \<open>OptimizationResult\<close>: best point, its objective value,
  the full observation log in evaluation order, the iterations run and the seed used.
  The notebook reads \<^verbatim>\<open>res.x\<close> (\<open>res_x\<close>), \<^verbatim>\<open>res.fun\<close> (\<open>res_fun\<close>) and
  \<^verbatim>\<open>res.func_vals\<close>, the values of the log.
\<close>

record optimization_result =
  res_x :: point
  res_fun :: "real option"
  res_log :: "observation list"
  res_n_iters :: nat
  res_seed :: "nat option"

definition func_vals :: "optimization_result \<Rightarrow> real option list" where
  "func_vals res = map snd (res_log res)"

definition x_iters :: "optimization_result \<Rightarrow> point list" where
  "x_iters res = map fst (res_log res)"

text \<open>The state of a run: the log, the running best and the random state.\<close>

record 'r run_state =
  st_log :: "observation list"
  st_best :: "observation option"
  st_rng :: 'r

text \<open>
  Modelled from the spec: the state Init of the Driver. It validates the search space and
  the budget \<open>n_calls \<ge> 1\<close>; an initial-point count that is negative or above the budget
  is inconsistent with it. A fatal error aborts before any evaluation.
\<close>

definition init :: "config \<Rightarrow> lib_error + dimension list" where
  "init cfg =
     (case make_space (cfg_space cfg) of
        Inl e \<Rightarrow> Inl e
      | Inr sp \<Rightarrow>
          if n_calls cfg < 1 then Inl InvalidConfigurationError
          else if n_initial_points cfg < 0 \<or> n_calls cfg < n_initial_points cfg
          then Inl InvalidConfigurationError
          else Inr sp)"

text \<open>
  Modelled from the spec: the Sample Generator. \<open>initial_design\<close> produces the first
  \<open>n\<close> points; a point that collides with one already chosen is rejected and resampled,
  up to a bounded retry count, after which a duplicate is accepted.
\<close>

fun resample ::
  "('r, 's) internals \<Rightarrow> dimension list \<Rightarrow> point list \<Rightarrow> nat \<Rightarrow> 'r \<Rightarrow> point \<times> 'r" where
  "resample I sp chosen 0 g = draw I sp g"
| "resample I sp chosen (Suc retries) g =
     (case draw I sp g of
        (p, g') \<Rightarrow> if p \<in> set chosen then resample I sp chosen retries g' else (p, g'))"

fun initial_design ::
  "('r, 's) internals \<Rightarrow> dimension list \<Rightarrow> nat \<Rightarrow> 'r \<Rightarrow> point list \<times> 'r" where
  "initial_design I sp 0 g = ([], g)"
| "initial_design I sp (Suc n) g =
     (case initial_design I sp n g of
        (chosen, g') \<Rightarrow>
          (case resample I sp chosen (retry_bound I) g' of
             (p, g'') \<Rightarrow> (chosen @ [p], g'')))"

text \<open>
  Modelled from the spec: best-tracking. \<open>better v w\<close> says that the value \<open>v\<close> is
  strictly better (lower) than \<open>w\<close>; a failed evaluation is the worst possible value.
\<close>

fun better :: "real option \<Rightarrow> real option \<Rightarrow> bool" where
  "better (Some a) (Some b) = (a < b)"
| "better (Some a) None = True"
| "better None w = False"

text \<open>
  Modelled from the spec: one evaluation of the objective. The observation is appended to
  the log, also when the evaluation failed, and the running best is replaced when the new
  value is strictly better.
\<close>

definition record_observation ::
  "(point \<Rightarrow> real option) \<Rightarrow> point \<Rightarrow> 'r run_state \<Rightarrow> 'r run_state" where
  "record_observation func p st =
     (let v = func p in
      st\<lparr>st_log := st_log st @ [(p, v)],
         st_best :=
           (case st_best st of
              None \<Rightarrow> Some (p, v)
            | Some (bp, bv) \<Rightarrow> if better v bv then Some (p, v) else Some (bp, bv))\<rparr>)"

text \<open>
  Modelled from the spec: the state WarmUp evaluates the objective on each point of the
  initial design, one after the other.
\<close>

fun warm_up :: "(point \<Rightarrow> real option) \<Rightarrow> point list \<Rightarrow> 'r run_state \<Rightarrow> 'r run_state" where
  "warm_up func [] st = st"
| "warm_up func (p # ps) st = warm_up func ps (record_observation func p st)"

text \<open>
  Modelled from the spec: the proposal of one iteration of ModelLoop. Random search, and
  a log with fewer than two distinct observed values, take a random point; otherwise the
  surrogate is fitted on all observations so far and the acquisition function proposes
  the point, and a \<open>SurrogateFitError\<close> falls back to a random proposal.
\<close>

definition propose_next ::
  "('r, 's) internals \<Rightarrow> config \<Rightarrow> dimension list \<Rightarrow> 'r run_state \<Rightarrow> point \<times> 'r" where
  "propose_next I cfg sp st =
     (if surrogate_kind cfg = RandomSearch \<or> length (remdups (map snd (st_log st))) < 2
      then draw I sp (st_rng st)
      else
        (case surrogate_fit I (surrogate_kind cfg) (st_log st) (st_rng st) of
           (None, g) \<Rightarrow> draw I sp g
         | (Some m, g) \<Rightarrow> acquisition_propose I (acquisition_trade_off cfg) sp m g))"

definition model_step ::
  "('r, 's) internals \<Rightarrow> config \<Rightarrow> dimension list \<Rightarrow> (point \<Rightarrow> real option) \<Rightarrow>
   'r run_state \<Rightarrow> 'r run_state" where
  "model_step I cfg sp func st =
     (case propose_next I cfg sp st of
        (p, g) \<Rightarrow> record_observation func p (st\<lparr>st_rng := g\<rparr>))"

text \<open>
  Modelled from the spec: ModelLoop repeats until the budget is exhausted, that is, while
  the log holds fewer than \<open>n_calls\<close> observations. Every iteration appends one
  observation, so the loop ends.
\<close>

function model_loop ::
  "('r, 's) internals \<Rightarrow> config \<Rightarrow> dimension list \<Rightarrow> (point \<Rightarrow> real option) \<Rightarrow>
   'r run_state \<Rightarrow> 'r run_state" where
  "model_loop I cfg sp func st =
     (if int (length (st_log st)) < n_calls cfg
      then model_loop I cfg sp func (model_step I cfg sp func st)
      else st)"
  by pat_completeness auto
termination
  by (relation "measure (\<lambda>(I, cfg, sp, func, st). nat (n_calls cfg) - length (st_log st))")
    (auto simp: model_step_def record_observation_def Let_def split: prod.splits)

text \<open>
  Modelled from the spec: the state Terminal assembles the result. A run that passed
  Init has evaluated at least one point, so its running best exists; the first branch
  stands for a log that is empty.
\<close>

definition terminal :: "config \<Rightarrow> 'r run_state \<Rightarrow> lib_error + optimization_result" where
  "terminal cfg st =
     (case st_best st of
        None \<Rightarrow> Inl InvalidConfigurationError
      | Some (p, v) \<Rightarrow>
          Inr \<lparr>res_x = p, res_fun = v, res_log = st_log st,
               res_n_iters = length (st_log st), res_seed = random_state cfg\<rparr>)"

text \<open>
  Modelled from the spec: a run of the Driver: Init, WarmUp, ModelLoop, Terminal. The
  generator is seeded from \<open>random_state\<close>, and from \<open>entropy\<close>, a number that the
  environment supplies, when the caller gave no seed.
\<close>

definition minimize ::
  "('r, 's) internals \<Rightarrow> nat \<Rightarrow> config \<Rightarrow> (point \<Rightarrow> real option) \<Rightarrow>
   lib_error + optimization_result" where
  "minimize I entropy cfg func =
     (case init cfg of
        Inl e \<Rightarrow> Inl e
      | Inr sp \<Rightarrow>
          (let g0 = seed_rng I (case random_state cfg of Some s \<Rightarrow> s | None \<Rightarrow> entropy) in
           case initial_design I sp (nat (n_initial_points cfg)) g0 of
             (design, g1) \<Rightarrow>
               terminal cfg
                 (model_loop I cfg sp func
                    (warm_up func design \<lparr>st_log = [], st_best = None, st_rng = g1\<rparr>))))"

text \<open>
  The running best \<open>b\<close> tracks the log \<open>obs\<close>: it is an observation of the log, and no
  observation of the log has a strictly better value.
\<close>

definition tracks :: "observation list \<Rightarrow> observation option \<Rightarrow> bool" where
  "tracks obs b =
     (case b of
        None \<Rightarrow> obs = []
      | Some (p, v) \<Rightarrow> (p, v) \<in> set obs \<and> (\<forall>w \<in> set obs. \<not> better (snd w) v))"

subsection \<open>A small run, for evaluation\<close>

text \<open>
  An instance of the library's internals over a counter as random state, a configuration
  with a budget of five evaluations, two of them in the warm-up, and an objective that
  signals a failure at one point.
\<close>

definition example_internals :: "(nat, unit) internals" where
  "example_internals =
     \<lparr>seed_rng = (\<lambda>s. s),
      draw = (\<lambda>sp g.
        (map (\<lambda>d. case d of
                    Integer l h \<Rightarrow> PInt (l + int g mod (h - l + 1))
                  | Continuous l h b \<Rightarrow> PFloat l
                  | Categorical ls \<Rightarrow> PStr (ls ! (g mod length ls))) sp,
         g + 1)),
      retry_bound = 2,
      surrogate_fit = (\<lambda>k obs g. (if even g then Some () else None, g + 1)),
      acquisition_propose = (\<lambda>t sp m g.
        (map (\<lambda>d. case d of
                    Integer l h \<Rightarrow> PInt h
                  | Continuous l h b \<Rightarrow> PFloat h
                  | Categorical ls \<Rightarrow> PStr (hd ls)) sp,
         g + 1))\<rparr>"

definition example_config :: config where
  "example_config =
     \<lparr>n_calls = 5, n_initial_points = 2, random_state = Some 0, surrogate_kind = Ensemble,
      acquisition_trade_off = 1, cfg_space = [[PInt 1, PInt 5]]\<rparr>"

definition example_objective :: "point \<Rightarrow> real option" where
  "example_objective p =
     (case p of
        [PInt i] \<Rightarrow> if i = 2 then None else Some ((real_of_int i - 3) ^ 2)
      | _ \<Rightarrow> None)"

section \<open>Properties of the notebook\<close>

subsection \<open>Helper lemmas\<close>

lemma np_min_Min: "vs \<noteq> [] \<Longrightarrow> np_min vs = Inr (Min (set vs))"
proof (cases vs)
  case Nil
  assume "vs \<noteq> []"
  with Nil show ?thesis by simp
next
  case (Cons v rest)
  have "fold min rest v = Min (set (v # rest))"
    by (rule Min.set_eq_fold [symmetric])
  with Cons show ?thesis by (simp only: np_min.simps)
qed

lemma running_best_map:
  "vals \<noteq> [] \<Longrightarrow>
   running_best vals idx = Inr (map (\<lambda>i. - Min (set (take (i + 1) vals))) idx)"
proof (induction idx)
  case Nil
  then show ?case by simp
next
  case (Cons i rest)
  from Cons.prems have "take (i + 1) vals \<noteq> []" by (cases vals) simp_all
  then have "np_min (take (i + 1) vals) = Inr (Min (set (take (i + 1) vals)))"
    by (rule np_min_Min)
  with Cons show ?case by simp
qed

lemma prefix_min_antimono:
  assumes "vals \<noteq> []" and "i \<le> j"
  shows "Min (set (take (j + 1) vals)) \<le> Min (set (take (i + 1) (vals :: real list)))"
proof (rule Min_antimono)
  from assms(2) show "set (take (i + 1) vals) \<subseteq> set (take (j + 1) vals)"
    by (simp add: set_take_subset_set_take)
  from assms(1) show "set (take (i + 1) vals) \<noteq> {}" by (cases vals) simp_all
  show "finite (set (take (j + 1) vals))" by simp
qed

subsection \<open>C10: the convergence curves never decrease\<close>

text \<open>
  C10. For a result whose \<^verbatim>\<open>func_vals\<close> is not empty, the comprehension raises nothing
  and yields \<open>n_points = 50\<close> values, and for all indices \<open>i \<le> j\<close> below 50 the plotted
  value \<open>-min(func_vals[:i+1])\<close> is at most \<open>-min(func_vals[:j+1])\<close>: each curve is
  monotonically non-decreasing.
\<close>

theorem best_curve_nondecreasing:
  assumes "vals \<noteq> []" and "i \<le> j" and "j < n_points"
  shows "\<exists>bs. best_curve vals = Inr bs \<and> length bs = n_points \<and> bs ! i \<le> bs ! j"
proof -
  let ?bs = "map (\<lambda>i. - Min (set (take (i + 1) vals))) [0..<n_points]"
  have run: "best_curve vals = Inr ?bs"
    unfolding best_curve_def using assms(1) by (rule running_best_map)
  from assms(2,3) have i: "i < n_points" by simp
  have bi: "?bs ! i = - Min (set (take (i + 1) vals))"
    using i by (simp only: nth_map_upt add_0 minus_nat.diff_0)
  have bj: "?bs ! j = - Min (set (take (j + 1) vals))"
    using assms(3) by (simp only: nth_map_upt add_0 minus_nat.diff_0)
  from assms(1,2) have "Min (set (take (j + 1) vals)) \<le> Min (set (take (i + 1) vals))"
    by (rule prefix_min_antimono)
  then have "?bs ! i \<le> ?bs ! j"
    unfolding bi bj by (simp only: neg_le_iff_le)
  moreover have "length ?bs = n_points" by simp
  ultimately show ?thesis using run by blast
qed

theorem best_curve_nondecreasing_witness:
  "[3, 1, 2 :: real] \<noteq> [] \<and> (0 :: nat) \<le> 1 \<and> (1 :: nat) < n_points \<and>
   (\<exists>bs. best_curve [3, 1, 2] = Inr bs \<and> length bs = n_points \<and> bs ! 0 \<le> bs ! 1)"
  using best_curve_nondecreasing [of "[3, 1, 2]" 0 1] by (simp add: n_points_def)

subsection \<open>C1: the objective takes a point in the order of the space\<close>

lemma objective_five:
  "objective cross_val_score X y est [a, b, c, d, e] =
     (let est' = est(''max_depth'' \<mapsto> a, ''learning_rate'' \<mapsto> b, ''max_features'' \<mapsto> c,
                     ''min_samples_split'' \<mapsto> d, ''min_samples_leaf'' \<mapsto> e)
      in (Inr (neg (np_mean (cross_val_score est' X y 5 (- 1) ''mean_absolute_error''))),
          est'))"
  by (simp add: objective_def Let_def)

lemma length_five:
  assumes "length (p :: 'a list) = 5"
  obtains a b c d e where "p = [a, b, c, d, e]"
proof -
  from assms obtain a p1 where 1: "p = a # p1" "length p1 = 4" by (cases p) auto
  then obtain b p2 where 2: "p1 = b # p2" "length p2 = 3" by (cases p1) auto
  then obtain c p3 where 3: "p2 = c # p3" "length p3 = 2" by (cases p2) auto
  then obtain d p4 where 4: "p3 = d # p4" "length p4 = 1" by (cases p3) auto
  then obtain e where 5: "p4 = [e]" by (cases p4) auto
  from 1 2 3 4 5 have "p = [a, b, c, d, e]" by simp
  then show thesis by (rule that)
qed

text \<open>
  C1. \<open>objective\<close> takes one point with as many entries as \<open>space\<close> has dimensions and,
  when the cross-validation yields at least one score, returns one real number. It binds
  the entries of the point to the hyper-parameters in the order in which the lines of
  \<open>space\<close> name them: after the call, the estimator's parameter named by the \<open>i\<close>-th line
  of \<open>space\<close> is the \<open>i\<close>-th entry of the point.
\<close>

theorem objective_unpacks_in_space_order:
  assumes "length params = length (space X_shape1)"
    and "\<And>e. cross_val_score e X y 5 (- 1) ''mean_absolute_error'' \<noteq> []"
  shows "\<exists>v est'. objective cross_val_score X y est params = (Inr (Some v), est') \<and>
           length space_comments = length (space X_shape1) \<and>
           map est' space_comments = map Some params"
proof -
  from assms(1) have "length params = 5" by (simp add: space_def)
  then obtain a b c d e where p: "params = [a, b, c, d, e]" by (rule length_five)
  let ?est' = "est(''max_depth'' \<mapsto> a, ''learning_rate'' \<mapsto> b, ''max_features'' \<mapsto> c,
                   ''min_samples_split'' \<mapsto> d, ''min_samples_leaf'' \<mapsto> e)"
  let ?scores = "cross_val_score ?est' X y 5 (- 1) ''mean_absolute_error''"
  from assms(2) have ne: "?scores \<noteq> []" .
  have run: "objective cross_val_score X y est params =
               (Inr (Some (- (sum_list ?scores / real (length ?scores)))), ?est')"
    unfolding p objective_five using ne by (simp add: Let_def np_mean_def neg_def)
  have bound: "map ?est' space_comments = map Some params"
    unfolding p by (simp add: space_comments_def)
  have "length space_comments = length (space X_shape1)"
    by (simp add: space_comments_def space_def)
  with run bound show ?thesis by blast
qed

theorem objective_unpacks_in_space_order_witness:
  "length [PInt 3, PFloat (1 / 100), PInt 6, PInt 23, PInt 2] = length (space 13) \<and>
   (\<exists>v est'. objective (\<lambda>e X y cv n_jobs scoring. [- 3, - 4, - 2, - 3, - 3]) () () reg
                [PInt 3, PFloat (1 / 100), PInt 6, PInt 23, PInt 2] = (Inr (Some v), est') \<and>
      length space_comments = length (space 13) \<and>
      map est' space_comments =
        map Some [PInt 3, PFloat (1 / 100), PInt 6, PInt 23, PInt 2])"
  using objective_unpacks_in_space_order
    [of "[PInt 3, PFloat (1 / 100), PInt 6, PInt 23, PInt 2]" 13
        "\<lambda>e X y cv n_jobs scoring. [- 3, - 4, - 2, - 3, - 3]" "()" "()" reg]
  by (simp add: space_def)

subsection \<open>C9: the objective is the negated mean cross-validation score\<close>

text \<open>
  C9. For every point of five entries, \<open>objective\<close> returns the negation of the mean of
  the scores that \<^verbatim>\<open>cross_val_score\<close> gives (5 folds, scoring
  \<^verbatim>\<open>"mean_absolute_error"\<close>) for the regressor whose five hyper-parameters are set from
  that point, whatever an earlier call left in the regressor. Hence a point with a higher
  mean score has a strictly lower objective value.
\<close>

theorem objective_is_negated_mean_cv_score:
  assumes "length p = 5" and "length q = 5"
    and "\<And>e. cross_val_score e X y 5 (- 1) ''mean_absolute_error'' \<noteq> []"
  shows "fst (objective cross_val_score X y est p) =
           Inr (Some (- mean_cv_score cross_val_score X y est p)) \<and>
         fst (objective cross_val_score X y (snd (objective cross_val_score X y est p)) q) =
           Inr (Some (- mean_cv_score cross_val_score X y est q)) \<and>
         (mean_cv_score cross_val_score X y est p < mean_cv_score cross_val_score X y est q \<longrightarrow>
            (\<exists>u v. fst (objective cross_val_score X y est p) = Inr (Some u) \<and>
               fst (objective cross_val_score X y
                      (snd (objective cross_val_score X y est p)) q) = Inr (Some v) \<and>
               v < u))"
proof -
  from assms(1) obtain a b c d e where p: "p = [a, b, c, d, e]" by (rule length_five)
  from assms(2) obtain a' b' c' d' e' where q: "q = [a', b', c', d', e']"
    by (rule length_five)
  let ?ep = "est(''max_depth'' \<mapsto> a, ''learning_rate'' \<mapsto> b, ''max_features'' \<mapsto> c,
                 ''min_samples_split'' \<mapsto> d, ''min_samples_leaf'' \<mapsto> e)"
  let ?eq = "est(''max_depth'' \<mapsto> a', ''learning_rate'' \<mapsto> b', ''max_features'' \<mapsto> c',
                 ''min_samples_split'' \<mapsto> d', ''min_samples_leaf'' \<mapsto> e')"
  have overwritten:
    "?ep(''max_depth'' \<mapsto> a', ''learning_rate'' \<mapsto> b', ''max_features'' \<mapsto> c',
         ''min_samples_split'' \<mapsto> d', ''min_samples_leaf'' \<mapsto> e') = ?eq"
    by (rule ext) simp
  from assms(3) have sp: "cross_val_score ?ep X y 5 (- 1) ''mean_absolute_error'' \<noteq> []" .
  from assms(3) have sq: "cross_val_score ?eq X y 5 (- 1) ''mean_absolute_error'' \<noteq> []" .
  have first: "fst (objective cross_val_score X y est p) =
                 Inr (Some (- mean_cv_score cross_val_score X y est p))"
    unfolding p objective_five using sp
    by (simp add: Let_def np_mean_def neg_def mean_cv_score_def)
  have state: "snd (objective cross_val_score X y est p) = ?ep"
    unfolding p objective_five by (simp add: Let_def)
  have second:
    "fst (objective cross_val_score X y (snd (objective cross_val_score X y est p)) q) =
       Inr (Some (- mean_cv_score cross_val_score X y est q))"
    unfolding state unfolding q objective_five overwritten using sq
    by (simp add: Let_def np_mean_def neg_def mean_cv_score_def)
  from first second show ?thesis by simp
qed

theorem objective_is_negated_mean_cv_score_witness:
  "length [PInt 3, PFloat (1 / 100), PInt 6, PInt 23, PInt 2] = 5 \<and>
   length [PInt 5, PFloat (1 / 10), PInt 6, PInt 23, PInt 2] = 5 \<and>
   fst (objective
          (\<lambda>e X y cv n_jobs scoring.
              if e ''max_depth'' = Some (PInt 5) then [- 2, - 3, - 2, - 3, - 3]
              else [- 3, - 4, - 2, - 3, - 3])
          () () reg [PInt 3, PFloat (1 / 100), PInt 6, PInt 23, PInt 2]) = Inr (Some 3) \<and>
   fst (objective
          (\<lambda>e X y cv n_jobs scoring.
              if e ''max_depth'' = Some (PInt 5) then [- 2, - 3, - 2, - 3, - 3]
              else [- 3, - 4, - 2, - 3, - 3])
          () ()
          (snd (objective
             (\<lambda>e X y cv n_jobs scoring.
                 if e ''max_depth'' = Some (PInt 5) then [- 2, - 3, - 2, - 3, - 3]
                 else [- 3, - 4, - 2, - 3, - 3])
             () () reg [PInt 3, PFloat (1 / 100), PInt 6, PInt 23, PInt 2]))
          [PInt 5, PFloat (1 / 10), PInt 6, PInt 23, PInt 2]) = Inr (Some (13 / 5))"
  using objective_is_negated_mean_cv_score
    [of "[PInt 3, PFloat (1 / 100), PInt 6, PInt 23, PInt 2]"
        "[PInt 5, PFloat (1 / 10), PInt 6, PInt 23, PInt 2]"
        "\<lambda>e X y cv n_jobs scoring.
            if e ''max_depth'' = Some (PInt 5) then [- 2, - 3, - 2, - 3, - 3]
            else [- 3, - 4, - 2, - 3, - 3]" "()" "()" reg]
  by (simp add: mean_cv_score_def)

subsection \<open>C2: the keywords of the three calls\<close>

text \<open>
  C2, as the claim states it, fails: the call of \<^verbatim>\<open>gp_minimize\<close> passes no keyword
  \<^verbatim>\<open>n_calls\<close>; its budget of 50 is the keyword \<^verbatim>\<open>maxiter\<close>.
\<close>

theorem gp_minimize_call_has_no_n_calls:
  "keyword gp_minimize_call ''n_calls'' = None \<and>
   keyword gp_minimize_call ''maxiter'' = Some (PInt 50)"
  by (simp add: keyword_def gp_minimize_call_def)

text \<open>
  C2, amended. Each of the three calls (\<^verbatim>\<open>gp_minimize\<close>, \<^verbatim>\<open>forest_minimize\<close>,
  \<^verbatim>\<open>dummy_minimize\<close>) passes the evaluation budget 50 under the keyword \<^verbatim>\<open>maxiter\<close>
  and the seed 0 under \<^verbatim>\<open>random_state\<close>; none passes \<^verbatim>\<open>n_calls\<close>.
\<close>

theorem optimizer_calls_pass_maxiter_and_random_state:
  "map callee optimizer_calls = [''gp_minimize'', ''forest_minimize'', ''dummy_minimize''] \<and>
   map (\<lambda>c. keyword c ''maxiter'') optimizer_calls =
     [Some (PInt 50), Some (PInt 50), Some (PInt 50)] \<and>
   map (\<lambda>c. keyword c ''random_state'') optimizer_calls =
     [Some (PInt 0), Some (PInt 0), Some (PInt 0)] \<and>
   map (\<lambda>c. keyword c ''n_calls'') optimizer_calls = [None, None, None]"
  by (simp add: optimizer_calls_def keyword_def gp_minimize_call_def
      forest_minimize_call_def dummy_minimize_call_def)

subsection \<open>C7: every numeric dimension has its low below its high\<close>

lemma make_space_ok: "make_space bounds = Inr dims \<Longrightarrow> list_all dimension_ok dims"
  by (auto simp: make_space_def split: option.splits if_splits)

lemma dimension_ok_bounds:
  "dimension_ok d \<Longrightarrow> numeric_bounds d = Some (low, high) \<Longrightarrow> low < high"
  by (cases d) auto

lemma make_space_notebook:
  "1 < X_shape1 \<Longrightarrow>
   make_space (space X_shape1) =
     Inr [Integer 1 5, Continuous (1 / 10 ^ 5) (1 / 10 ^ 1) True, Integer 1 X_shape1,
          Integer 2 30, Integer 1 30]"
  by (simp add: make_space_def space_def)

text \<open>
  C7. Every numeric dimension of a search space that was constructed has \<open>low < high\<close>.
  The search space built from the notebook's \<open>space\<close> is constructed without an error when
  the data has more than one column (the third dimension is \<open>(1, X.shape[1])\<close>), and its
  five dimensions \<open>(1, 5)\<close>, \<open>(10^-5, 10^-1)\<close> log-uniform, \<open>(1, X.shape[1])\<close>, \<open>(2, 30)\<close>
  and \<open>(1, 30)\<close> each have their lower bound strictly below their upper bound.
\<close>

theorem space_low_below_high:
  assumes "1 < X_shape1"
  shows "(make_space bounds = Inr sp \<longrightarrow>
            (\<forall>d \<in> set sp. \<forall>low high. numeric_bounds d = Some (low, high) \<longrightarrow> low < high)) \<and>
         (\<exists>dims. make_space (space X_shape1) = Inr dims \<and>
            map numeric_bounds dims =
              [Some (1, 5), Some (1 / 10 ^ 5, 1 / 10 ^ 1), Some (1, real_of_int X_shape1),
               Some (2, 30), Some (1, 30)] \<and>
            (\<forall>d \<in> set dims. \<forall>low high. numeric_bounds d = Some (low, high) \<longrightarrow> low < high))"
proof (intro conjI impI)
  assume "make_space bounds = Inr sp"
  then have "list_all dimension_ok sp" by (rule make_space_ok)
  then show "\<forall>d \<in> set sp. \<forall>low high. numeric_bounds d = Some (low, high) \<longrightarrow> low < high"
    by (auto simp: list_all_iff dimension_ok_bounds)
next
  let ?dims = "[Integer 1 5, Continuous (1 / 10 ^ 5) (1 / 10 ^ 1) True, Integer 1 X_shape1,
                Integer 2 30, Integer 1 30]"
  show "\<exists>dims. make_space (space X_shape1) = Inr dims \<and>
            map numeric_bounds dims =
              [Some (1, 5), Some (1 / 10 ^ 5, 1 / 10 ^ 1), Some (1, real_of_int X_shape1),
               Some (2, 30), Some (1, 30)] \<and>
            (\<forall>d \<in> set dims. \<forall>low high. numeric_bounds d = Some (low, high) \<longrightarrow> low < high)"
  proof (intro exI conjI)
    from assms show "make_space (space X_shape1) = Inr ?dims"
      by (rule make_space_notebook)
    show "map numeric_bounds ?dims =
        [Some (1, 5), Some (1 / 10 ^ 5, 1 / 10 ^ 1), Some (1, real_of_int X_shape1),
         Some (2, 30), Some (1, 30)]"
      by simp
    show "\<forall>d \<in> set ?dims. \<forall>low high. numeric_bounds d = Some (low, high) \<longrightarrow> low < high"
      using assms by simp
  qed
qed

theorem space_low_below_high_witness:
  "(1 :: int) < 13 \<and>
   make_space (space 13) =
     Inr [Integer 1 5, Continuous (1 / 10 ^ 5) (1 / 10 ^ 1) True, Integer 1 13,
          Integer 2 30, Integer 1 30]"
  using space_low_below_high [of 13 "space 13" "[]"] by (auto simp: make_space_def space_def)

section \<open>Properties of the library, as the spec describes it\<close>

subsection \<open>Helper lemmas: the round trip of one value and of a point\<close>

lemma index_of_less: "a \<in> set bs \<Longrightarrow> index_of bs a < length bs"
  by (induction bs) auto

lemma nth_index_of: "a \<in> set bs \<Longrightarrow> bs ! index_of bs a = a"
  by (induction bs) auto

lemma argmax_one_hot:
  "s \<in> set labels \<Longrightarrow> argmax (map (\<lambda>l. if l = s then 1 else 0) labels) = index_of labels s"
proof (induction labels)
  case Nil
  then show ?case by simp
next
  case (Cons l labels)
  show ?case
  proof (cases "l = s")
    case True
    then show ?thesis by (auto simp: list_all_iff)
  next
    case False
    with Cons.prems have mem: "s \<in> set labels" by simp
    then have "\<not> list_all (\<lambda>c'. c' \<le> (0 :: real)) (map (\<lambda>l. if l = s then 1 else 0) labels)"
      by (auto simp: list_all_iff)
    with False mem Cons.IH show ?thesis by auto
  qed
qed

lemma value_roundtrip:
  assumes "in_dimension d v"
  shows "\<exists>c. encode_value enc d v = Some c \<and> length c = width enc d \<and>
           decode_value enc d c = Some v"
proof (cases d)
  case (Continuous low high log_scale)
  with assms obtain r where "v = PFloat r" by (cases v) simp_all
  with Continuous show ?thesis by (cases enc) simp_all
next
  case (Integer low high)
  with assms obtain i where "v = PInt i" by (cases v) simp_all
  with Integer show ?thesis by (cases enc) simp_all
next
  case (Categorical labels)
  with assms obtain s where v: "v = PStr s" and mem: "s \<in> set labels" by (cases v) simp_all
  show ?thesis
  proof (cases enc)
    case OneHot
    from mem have "labels \<noteq> []" by auto
    with OneHot Categorical v mem show ?thesis
      by (simp add: argmax_one_hot nth_index_of)
  next
    case Ordinal
    with Categorical v mem show ?thesis
      by (simp add: index_of_less nth_index_of)
  qed
qed

lemma point_roundtrip:
  "list_all2 in_dimension sp p \<Longrightarrow>
   \<exists>c. encode enc sp p = Some c \<and> length c = sum_list (map (width enc) sp) \<and>
     decode enc sp c = Some p"
proof (induction sp p rule: list_all2_induct)
  case Nil
  then show ?case by simp
next
  case (Cons d ds v vs)
  from Cons.hyps(1) obtain c where c: "encode_value enc d v = Some c"
    "length c = width enc d" "decode_value enc d c = Some v"
    using value_roundtrip by blast
  from Cons.IH obtain cs where cs: "encode enc ds vs = Some cs"
    "length cs = sum_list (map (width enc) ds)" "decode enc ds cs = Some vs"
    by blast
  from c cs have "encode enc (d # ds) (v # vs) = Some (c @ cs)" by simp
  moreover from c cs have "decode enc (d # ds) (c @ cs) = Some (v # vs)" by simp
  moreover from c cs have "length (c @ cs) = sum_list (map (width enc) (d # ds))" by simp
  ultimately show ?case by blast
qed

lemma close_to_refl: "0 \<le> eps \<Longrightarrow> close_to eps v v"
  by (cases v) simp_all

subsection \<open>C8: decoding the encoding of a valid point\<close>

text \<open>
  C8. For every search space and every point \<open>p\<close> valid in it, under either encoding of
  the categorical dimensions, \<open>encode\<close> yields a vector and \<open>decode\<close> of that vector
  yields a point \<open>q\<close> whose discrete and categorical entries are those of \<open>p\<close> and whose
  continuous entries are within the tolerance \<open>eps\<close> of those of \<open>p\<close>. (Over the reals
  the round trip is exact, see \<open>point_roundtrip\<close>.)
\<close>

theorem decode_encode_roundtrip:
  assumes "valid_point sp p" and "0 \<le> eps"
  shows "\<exists>c q. encode enc sp p = Some c \<and> decode enc sp c = Some q \<and>
           list_all2 (close_to eps) p q"
proof -
  from assms(1) obtain c where "encode enc sp p = Some c" "decode enc sp c = Some p"
    unfolding valid_point_def using point_roundtrip by blast
  moreover from assms(2) have "list_all2 (close_to eps) p p"
    by (simp add: list_all2_same close_to_refl)
  ultimately show ?thesis by blast
qed

theorem decode_encode_roundtrip_witness:
  "valid_point
     [Integer 1 5, Continuous (1 / 10 ^ 5) (1 / 10) True, Categorical [''a'', ''b'', ''c'']]
     [PInt 3, PFloat (1 / 100), PStr ''b''] \<and>
   (0 :: real) \<le> 1 / 10 ^ 9 \<and>
   (\<exists>c q. encode OneHot
            [Integer 1 5, Continuous (1 / 10 ^ 5) (1 / 10) True,
             Categorical [''a'', ''b'', ''c'']]
            [PInt 3, PFloat (1 / 100), PStr ''b''] = Some c \<and>
          decode OneHot
            [Integer 1 5, Continuous (1 / 10 ^ 5) (1 / 10) True,
             Categorical [''a'', ''b'', ''c'']] c = Some q \<and>
          list_all2 (close_to (1 / 10 ^ 9)) [PInt 3, PFloat (1 / 100), PStr ''b''] q) \<and>
   encode OneHot
     [Integer 1 5, Continuous (1 / 10 ^ 5) (1 / 10) True, Categorical [''a'', ''b'', ''c'']]
     [PInt 3, PFloat (1 / 100), PStr ''b''] = Some [3, 1 / 100, 0, 1, 0] \<and>
   decode OneHot
     [Integer 1 5, Continuous (1 / 10 ^ 5) (1 / 10) True, Categorical [''a'', ''b'', ''c'']]
     [3, 1 / 100, 0, 1, 0] = Some [PInt 3, PFloat (1 / 100), PStr ''b'']"
  using decode_encode_roundtrip
    [of "[Integer 1 5, Continuous (1 / 10 ^ 5) (1 / 10) True, Categorical [''a'', ''b'', ''c'']]"
        "[PInt 3, PFloat (1 / 100), PStr ''b'']" "1 / 10 ^ 9" OneHot]
  by (simp add: valid_point_def)

subsection \<open>Helper lemmas: the loop\<close>

lemma length_record_observation:
  "length (st_log (record_observation func p st)) = Suc (length (st_log st))"
  by (simp add: record_observation_def Let_def)

lemma length_model_step:
  "length (st_log (model_step I cfg sp func st)) = Suc (length (st_log st))"
  by (simp add: model_step_def length_record_observation split: prod.splits)

declare model_loop.simps [simp del]

lemma better_irrefl: "\<not> better v v"
  by (cases v) simp_all

lemma better_trans: "better a b \<Longrightarrow> better b c \<Longrightarrow> better a c"
  by (cases a; cases b; cases c) simp_all

lemma tracks_record_observation:
  assumes "tracks (st_log st) (st_best st)"
  shows "tracks (st_log (record_observation func p st))
           (st_best (record_observation func p st))"
proof (cases "st_best st")
  case None
  with assms have "st_log st = []" by (simp add: tracks_def)
  with None show ?thesis
    by (simp add: record_observation_def Let_def tracks_def better_irrefl)
next
  case (Some b)
  obtain bp bv where b: "b = (bp, bv)" by (cases b)
  from assms Some b have mem: "(bp, bv) \<in> set (st_log st)"
    and low: "\<forall>w \<in> set (st_log st). \<not> better (snd w) bv"
    by (simp_all add: tracks_def)
  show ?thesis
  proof (cases "better (func p) bv")
    case True
    have "\<not> better (snd w) (func p)" if "w \<in> set (st_log st)" for w
    proof
      assume "better (snd w) (func p)"
      from this True have "better (snd w) bv" by (rule better_trans)
      with low that show False by blast
    qed
    with True Some b show ?thesis
      by (simp add: record_observation_def Let_def tracks_def better_irrefl)
  next
    case False
    with Some b mem low show ?thesis
      by (simp add: record_observation_def Let_def tracks_def)
  qed
qed

lemma tracks_warm_up:
  "tracks (st_log st) (st_best st) \<Longrightarrow>
   tracks (st_log (warm_up func ps st)) (st_best (warm_up func ps st))"
  by (induction ps arbitrary: st) (simp_all add: tracks_record_observation)

lemma length_warm_up:
  "length (st_log (warm_up func ps st)) = length (st_log st) + length ps"
  by (induction ps arbitrary: st) (simp_all add: length_record_observation)

lemma length_initial_design: "length (fst (initial_design I sp n g)) = n"
  by (induction n) (auto split: prod.splits)

lemma tracks_model_step:
  assumes "tracks (st_log st) (st_best st)"
  shows "tracks (st_log (model_step I cfg sp func st)) (st_best (model_step I cfg sp func st))"
proof -
  obtain p g where pg: "propose_next I cfg sp st = (p, g)" by (cases "propose_next I cfg sp st")
  from assms have "tracks (st_log (st\<lparr>st_rng := g\<rparr>)) (st_best (st\<lparr>st_rng := g\<rparr>))" by simp
  then have "tracks (st_log (record_observation func p (st\<lparr>st_rng := g\<rparr>)))
               (st_best (record_observation func p (st\<lparr>st_rng := g\<rparr>)))"
    by (rule tracks_record_observation)
  with pg show ?thesis by (simp add: model_step_def)
qed

lemma tracks_model_loop:
  "tracks (st_log st) (st_best st) \<Longrightarrow>
   tracks (st_log (model_loop I cfg sp func st)) (st_best (model_loop I cfg sp func st))"
proof (induction I cfg sp func st rule: model_loop.induct)
  case (1 I cfg sp func st)
  show ?case
  proof (cases "int (length (st_log st)) < n_calls cfg")
    case True
    from "1.prems" have "tracks (st_log (model_step I cfg sp func st))
                           (st_best (model_step I cfg sp func st))"
      by (rule tracks_model_step)
    with True "1.IH" show ?thesis by (simp add: model_loop.simps [of I cfg sp func st])
  next
    case False
    with "1.prems" show ?thesis by (simp add: model_loop.simps [of I cfg sp func st])
  qed
qed

lemma length_model_loop:
  "int (length (st_log st)) \<le> n_calls cfg \<Longrightarrow>
   int (length (st_log (model_loop I cfg sp func st))) = n_calls cfg"
proof (induction I cfg sp func st rule: model_loop.induct)
  case (1 I cfg sp func st)
  show ?case
  proof (cases "int (length (st_log st)) < n_calls cfg")
    case True
    then have "int (length (st_log (model_step I cfg sp func st))) \<le> n_calls cfg"
      by (simp add: length_model_step)
    with True "1.IH" show ?thesis by (simp add: model_loop.simps [of I cfg sp func st])
  next
    case False
    with "1.prems" show ?thesis by (simp add: model_loop.simps [of I cfg sp func st])
  qed
qed

lemma init_budget:
  assumes "init cfg = Inr sp"
  shows "1 \<le> n_calls cfg" and "0 \<le> n_initial_points cfg"
    and "n_initial_points cfg \<le> n_calls cfg" and "make_space (cfg_space cfg) = Inr sp"
  using assms by (auto simp: init_def split: sum.splits if_splits)

lemma minimize_completes:
  assumes "init cfg = Inr sp"
  shows "\<exists>obs p v. minimize I entropy cfg func =
             Inr \<lparr>res_x = p, res_fun = v, res_log = obs,
                  res_n_iters = length obs, res_seed = random_state cfg\<rparr> \<and>
           tracks obs (Some (p, v)) \<and>
           int (length obs) = n_calls cfg"
proof -
  let ?g0 = "seed_rng I (case random_state cfg of Some s \<Rightarrow> s | None \<Rightarrow> entropy)"
  obtain design g1 where d: "initial_design I sp (nat (n_initial_points cfg)) ?g0 = (design, g1)"
    by (cases "initial_design I sp (nat (n_initial_points cfg)) ?g0")
  let ?st0 = "\<lparr>st_log = [], st_best = None, st_rng = g1\<rparr>"
  let ?st1 = "warm_up func design ?st0"
  let ?st2 = "model_loop I cfg sp func ?st1"
  from d have "length design = nat (n_initial_points cfg)"
    using length_initial_design [of I sp "nat (n_initial_points cfg)" ?g0] by simp
  then have "length (st_log ?st1) = nat (n_initial_points cfg)"
    by (simp add: length_warm_up)
  with init_budget(2,3) [OF assms] have "int (length (st_log ?st1)) \<le> n_calls cfg" by simp
  then have len: "int (length (st_log ?st2)) = n_calls cfg" by (rule length_model_loop)
  have "tracks (st_log ?st0) (st_best ?st0)" by (simp add: tracks_def)
  then have "tracks (st_log ?st1) (st_best ?st1)" by (rule tracks_warm_up)
  then have tr: "tracks (st_log ?st2) (st_best ?st2)" by (rule tracks_model_loop)
  from len init_budget(1) [OF assms] have "st_log ?st2 \<noteq> []" by auto
  with tr obtain p v where b: "st_best ?st2 = Some (p, v)"
    by (cases "st_best ?st2") (auto simp: tracks_def)
  have "minimize I entropy cfg func = terminal cfg ?st2"
    using assms d by (simp add: minimize_def Let_def)
  with b have run: "minimize I entropy cfg func =
      Inr \<lparr>res_x = p, res_fun = v, res_log = st_log ?st2,
           res_n_iters = length (st_log ?st2), res_seed = random_state cfg\<rparr>"
    by (simp add: terminal_def)
  from run b tr len show ?thesis by auto
qed

lemma minimize_Inr_init:
  "minimize I entropy cfg func = Inr res \<Longrightarrow> \<exists>sp. init cfg = Inr sp"
  by (cases "init cfg") (simp_all add: minimize_def)

lemma example_run:
  "minimize example_internals 7 example_config example_objective =
     Inr \<lparr>res_x = [PInt 1], res_fun = Some 4,
          res_log =
            [([PInt 1], Some 4), ([PInt 2], None), ([PInt 5], Some 4),
             ([PInt 5], Some 4), ([PInt 5], Some 4)],
          res_n_iters = 5, res_seed = Some 0\<rparr>"
  by code_simp

lemma curve_last:
  assumes "vals \<noteq> []" and "length vals \<le> n_points"
  shows "\<exists>bs. best_curve vals = Inr bs \<and> last bs = - Min (set vals)"
proof -
  let ?f = "\<lambda>i. - Min (set (take (i + 1) vals))"
  have run: "best_curve vals = Inr (map ?f [0..<n_points])"
    unfolding best_curve_def using assms(1) by (rule running_best_map)
  have "last (map ?f [0..<n_points]) = ?f (n_points - 1)"
    by (simp add: n_points_def last_map)
  also from assms(2) have "\<dots> = - Min (set vals)" by (simp add: n_points_def)
  finally show ?thesis using run by blast
qed

lemma tracked_value_is_Min:
  assumes "Some m \<in> set (map Some vals)"
    and "\<forall>v \<in> set (map Some vals). \<not> better v (Some m)"
  shows "m = Min (set vals)"
proof -
  from assms(1) have mem: "m \<in> set vals" by auto
  have "m \<le> w" if "w \<in> set vals" for w
  proof -
    from that have "Some w \<in> set (map Some vals)" by simp
    with assms(2) have "\<not> better (Some w) (Some m)" by blast
    then show ?thesis by simp
  qed
  with mem have "Min (set vals) = m" by (intro Min_eqI) simp_all
  then show ?thesis by simp
qed

subsection \<open>C4: the log is as long as the budget\<close>

text \<open>
  C4. For every configuration that passes Init (a well-formed space, \<open>n_calls \<ge> 1\<close> and
  an initial-point count between 0 and the budget), the run returns a result, and the
  observation log of the result has exactly \<open>n_calls\<close> entries, points and values alike.
  For a budget of \<open>n_points = 50\<close>, as in the notebook's runs, every slice
  \<open>func_vals[:i+1]\<close> with \<open>i < 50\<close> therefore has its \<open>i + 1\<close> entries.
\<close>

theorem log_length_is_budget:
  assumes "init cfg = Inr sp"
  shows "\<exists>res. minimize I entropy cfg func = Inr res \<and>
           int (length (func_vals res)) = n_calls cfg \<and>
           length (x_iters res) = length (func_vals res) \<and>
           (n_calls cfg = int n_points \<longrightarrow>
              (\<forall>i < n_points. length (take (i + 1) (func_vals res)) = i + 1))"
proof -
  from minimize_completes [OF assms, of I entropy func]
  obtain obs p v where run: "minimize I entropy cfg func =
             Inr \<lparr>res_x = p, res_fun = v, res_log = obs,
                  res_n_iters = length obs, res_seed = random_state cfg\<rparr>"
    and len: "int (length obs) = n_calls cfg"
    by blast
  let ?res = "\<lparr>res_x = p, res_fun = v, res_log = obs,
                  res_n_iters = length obs, res_seed = random_state cfg\<rparr>"
  have 1: "int (length (func_vals ?res)) = n_calls cfg"
    using len by (simp add: func_vals_def)
  have 2: "length (x_iters ?res) = length (func_vals ?res)"
    by (simp add: func_vals_def x_iters_def)
  have 3: "n_calls cfg = int n_points \<longrightarrow>
              (\<forall>i < n_points. length (take (i + 1) (func_vals ?res)) = i + 1)"
    using 1 by auto
  from run 1 2 3 show ?thesis by blast
qed

theorem log_length_is_budget_witness:
  "init \<lparr>n_calls = 50, n_initial_points = 10, random_state = Some 0,
         surrogate_kind = ProbabilisticRegressor, acquisition_trade_off = 1,
         cfg_space = space 13\<rparr> =
     Inr [Integer 1 5, Continuous (1 / 10 ^ 5) (1 / 10 ^ 1) True, Integer 1 13,
          Integer 2 30, Integer 1 30] \<and>
   (\<exists>res. minimize example_internals 7
            \<lparr>n_calls = 50, n_initial_points = 10, random_state = Some 0,
             surrogate_kind = ProbabilisticRegressor, acquisition_trade_off = 1,
             cfg_space = space 13\<rparr> example_objective = Inr res \<and>
          length (func_vals res) = 50 \<and>
          length (take (49 + 1) (func_vals res)) = 49 + 1)"
proof -
  let ?cfg = "\<lparr>n_calls = 50, n_initial_points = 10, random_state = Some 0,
         surrogate_kind = ProbabilisticRegressor, acquisition_trade_off = 1,
         cfg_space = space 13\<rparr>"
  let ?sp = "[Integer 1 5, Continuous (1 / 10 ^ 5) (1 / 10 ^ 1) True, Integer 1 13,
          Integer 2 30, Integer 1 30]"
  have valid: "init ?cfg = Inr ?sp"
    by (simp add: init_def make_space_def space_def)
  from log_length_is_budget [OF valid, of example_internals 7 example_objective]
  obtain res where run: "minimize example_internals 7 ?cfg example_objective = Inr res"
    and len: "int (length (func_vals res)) = n_calls ?cfg"
    by blast
  from len have "length (func_vals res) = 50" by simp
  with valid run show ?thesis by simp
qed

subsection \<open>C3: the best value is the minimum of the log\<close>

text \<open>
  C3. For every completed run, the best value of the result (\<open>res_fun\<close>, the field
  \<^verbatim>\<open>fun\<close> that the notebook reads) is the minimum of the objective values of the full
  log (\<open>func_vals\<close>): it is one of them and none of them is strictly better, a failed
  evaluation counting as the worst value; and the best point is a point of the log that
  has this value. When no evaluation failed and the log has at most \<open>n_points\<close> entries,
  the running minimum that the notebook computes over all of \<^verbatim>\<open>func_vals\<close>, the last
  point of its convergence curve, is the negation of that best value.
\<close>

theorem best_value_is_log_minimum:
  assumes "minimize I entropy cfg func = Inr res"
  shows "res_fun res \<in> set (func_vals res) \<and>
         (\<forall>v \<in> set (func_vals res). \<not> better v (res_fun res)) \<and>
         (res_x res, res_fun res) \<in> set (res_log res) \<and>
         (\<forall>vals. func_vals res = map Some vals \<and> length vals \<le> n_points \<longrightarrow>
            (\<exists>bs. best_curve vals = Inr bs \<and> res_fun res = Some (- last bs)))"
proof -
  from assms obtain sp where "init cfg = Inr sp" by (blast dest: minimize_Inr_init)
  from minimize_completes [OF this, of I entropy func]
  obtain obs p v where run: "minimize I entropy cfg func =
             Inr \<lparr>res_x = p, res_fun = v, res_log = obs,
                  res_n_iters = length obs, res_seed = random_state cfg\<rparr>"
    and tr: "tracks obs (Some (p, v))"
    by blast
  from run assms have res: "res = \<lparr>res_x = p, res_fun = v, res_log = obs,
                  res_n_iters = length obs, res_seed = random_state cfg\<rparr>"
    by simp
  from tr have mem: "(p, v) \<in> set obs"
    and low: "\<forall>w \<in> set obs. \<not> better (snd w) v"
    by (simp_all add: tracks_def)
  from mem have "v \<in> snd ` set obs" by force
  with mem low have first: "res_fun res \<in> set (func_vals res) \<and>
         (\<forall>v \<in> set (func_vals res). \<not> better v (res_fun res)) \<and>
         (res_x res, res_fun res) \<in> set (res_log res)"
    unfolding res by (simp add: func_vals_def)
  have curve: "\<exists>bs. best_curve vals = Inr bs \<and> res_fun res = Some (- last bs)"
    if eq: "func_vals res = map Some vals" and len: "length vals \<le> n_points" for vals
  proof -
    from first eq obtain m where m: "res_fun res = Some m" by auto
    from first eq m have "Some m \<in> set (map Some vals)"
      and "\<forall>v \<in> set (map Some vals). \<not> better v (Some m)"
      by simp_all
    then have min: "m = Min (set vals)" by (rule tracked_value_is_Min)
    from first eq have "vals \<noteq> []" by auto
    from curve_last [OF this len] obtain bs
      where "best_curve vals = Inr bs" "last bs = - Min (set vals)" by blast
    with m min show ?thesis by simp
  qed
  from first curve show ?thesis by blast
qed

theorem best_value_is_log_minimum_witness:
  "\<exists>res. minimize example_internals 7 example_config example_objective = Inr res \<and>
      res_fun res = Some 4 \<and>
      func_vals res = [Some 4, None, Some 4, Some 4, Some 4] \<and>
      res_fun res \<in> set (func_vals res) \<and>
      (res_x res, res_fun res) \<in> set (res_log res)"
  using best_value_is_log_minimum [OF example_run] example_run
  by (simp add: func_vals_def)

section \<open>Evaluations\<close>

text \<open>
  The error branches and a few values of the definitions above, evaluated at concrete
  inputs.
\<close>

lemma objective_wrong_arity:
  "objective cross_val_score X y est [PInt 3, PFloat (1 / 100)] = (Inl ValueError, est)"
  by (simp add: objective_def)

lemma objective_no_scores:
  "fst (objective (\<lambda>e X y cv n_jobs scoring. []) () () reg
          [PInt 3, PFloat (1 / 100), PInt 6, PInt 23, PInt 2]) = Inr None"
  by (simp add: objective_def np_mean_def neg_def)

lemma best_curve_empty: "best_curve [] = Inl ValueError"
  by (simp add: best_curve_def n_points_def upt_conv_Cons)

lemma running_best_example:
  "running_best [3, 1, 2, 0] [0, 1, 2, 3, 4] = Inr [- 3, - 1, - 1, 0, 0]"
  by simp

lemma make_space_single_column: "make_space (space 1) = Inl InvalidSpaceError"
  by (simp add: make_space_def space_def)

lemma make_space_empty: "make_space [] = Inl InvalidSpaceError"
  by (simp add: make_space_def)

lemma make_space_labels:
  "make_space [[PStr ''a'', PStr ''b'', PStr ''a'']] = Inr [Categorical [''b'', ''a'']]"
  by (simp add: make_space_def)

lemma decode_ordinal_example:
  "decode Ordinal [Integer 1 5, Categorical [''a'', ''b'', ''c'']] [14 / 5, 6 / 5] =
     Some [PInt 3, PStr ''b'']"
  by (simp add: round_def)

lemma encode_invalid_label:
  "encode Ordinal [Categorical [''a'', ''b'']] [PStr ''z''] = None"
  by simp

lemma minimize_zero_budget:
  "minimize I entropy (example_config\<lparr>n_calls := 0\<rparr>) func = Inl InvalidConfigurationError"
  by (simp add: minimize_def init_def example_config_def make_space_def)

lemma minimize_too_many_initial_points:
  "minimize I entropy (example_config\<lparr>n_initial_points := 6\<rparr>) func =
     Inl InvalidConfigurationError"
  by (simp add: minimize_def init_def example_config_def make_space_def)

lemma minimize_inverted_bounds:
  "minimize I entropy (example_config\<lparr>cfg_space := [[PInt 5, PInt 1]]\<rparr>) func =
     Inl InvalidSpaceError"
  by (simp add: minimize_def init_def example_config_def make_space_def)

lemma minimize_all_failed:
  "map_sum id (\<lambda>res. (res_fun res, func_vals res))
     (minimize example_internals 7 example_config (\<lambda>p. None)) =
   Inr (None, [None, None, None, None, None])"
  by code_simp

end
